theory Spec2Isabelle
  imports Complex_Main
begin

section \<open>Sallen-Key low-pass filter: component values and transfer function\<close>

text \<open>
  The notebook \<^verbatim>\<open>SallenKey.ipynb\<close> has two code cells. The first computes the four
  passive components of a unity-gain Sallen-Key low-pass filter from the cutoff frequency
  \<^verbatim>\<open>fc\<close>, the quality factor \<^verbatim>\<open>Q\<close>, the resistor ratio \<^verbatim>\<open>m\<close> and the capacitance
  \<^verbatim>\<open>C\<close>; the second defines the transfer function \<^verbatim>\<open>H\<close>, its magnitude \<^verbatim>\<open>M\<close> in dB and
  its phase \<^verbatim>\<open>A\<close> in degrees, and maps them over a vector of frequencies.

  Python's \<^verbatim>\<open>float\<close> and \<^verbatim>\<open>complex\<close> are modelled by \<^typ>\<open>real\<close> and \<^typ>\<open>complex\<close>:
  every arithmetic operation is the exact one. Rounding, overflow, underflow, signed
  zeros, infinities and NaN are therefore outside this development. The exceptions that
  depend only on the exact value of an operand are kept as results of type
  \<open>error + 'a\<close>: a division by zero raises \<^verbatim>\<open>ZeroDivisionError\<close>, and \<^verbatim>\<open>math.sqrt\<close>
  of a negative number and \<^verbatim>\<open>math.log10\<close> of a non-positive number raise
  \<^verbatim>\<open>ValueError\<close>.
\<close>

subsection \<open>Errors and library functions\<close>

datatype error = ZeroDivisionError | ValueError

text \<open>\<^verbatim>\<open>x / y\<close> on Python floats.\<close>

definition float_div :: "real \<Rightarrow> real \<Rightarrow> error + real" where
  "float_div x y = (if y = 0 then Inl ZeroDivisionError else Inr (x / y))"

text \<open>\<^verbatim>\<open>x / y\<close> on Python complex numbers.\<close>

definition complex_div :: "complex \<Rightarrow> complex \<Rightarrow> error + complex" where
  "complex_div x y = (if y = 0 then Inl ZeroDivisionError else Inr (x / y))"

text \<open>\<^verbatim>\<open>math.sqrt(x)\<close>: a math domain error below zero.\<close>

definition math_sqrt :: "real \<Rightarrow> error + real" where
  "math_sqrt x = (if x < 0 then Inl ValueError else Inr (sqrt x))"

text \<open>\<^verbatim>\<open>math.log10(x)\<close>: a math domain error at zero and below.\<close>

definition math_log10 :: "real \<Rightarrow> error + real" where
  "math_log10 x = (if x \<le> 0 then Inl ValueError else Inr (log 10 x))"



subsection \<open>First cell: the component values\<close>

record ComponentValues =
  C1 :: real
  C2 :: real
  R1 :: real
  R2 :: real

text \<open>
  The cell assigns its four parameters and then computes
  \<^verbatim>\<open>n = (Q*(m+1))**2/m\<close>,
  \<^verbatim>\<open>R = 1./(2*math.pi*C*fc*math.sqrt(m*n))\<close>,
  \<^verbatim>\<open>C1 = C\<close>, \<^verbatim>\<open>C2 = n*C\<close>, \<^verbatim>\<open>R1 = m*R\<close>, \<^verbatim>\<open>R2 = R\<close>.
  It is modelled as a function of the four parameters. Both divisions and the square
  root come before the first component is assigned, so a run that raises has assigned
  none of them.
\<close>

definition synthesize :: "real \<Rightarrow> real \<Rightarrow> real \<Rightarrow> real \<Rightarrow> error + ComponentValues" where
  "synthesize fc Q C m =
    (case float_div ((Q * (m + 1))\<^sup>2) m of
       Inl e \<Rightarrow> Inl e
     | Inr n \<Rightarrow>
        (case math_sqrt (m * n) of
           Inl e \<Rightarrow> Inl e
         | Inr r \<Rightarrow>
            (case float_div 1 (2 * pi * C * fc * r) of
               Inl e \<Rightarrow> Inl e
             | Inr R \<Rightarrow> Inr \<lparr>C1 = C, C2 = n * C, R1 = m * R, R2 = R\<rparr>)))"

text \<open>The parameters the notebook is delivered with.\<close>

definition notebook_fc :: real where "notebook_fc = 10"
definition notebook_Q :: real where "notebook_Q = 1 / sqrt 2"
definition notebook_m :: real where "notebook_m = 1"
definition notebook_C :: real where "notebook_C = 330 / 10 ^ 9"

text \<open>
  Closed forms of the values these parameters give: \<open>n = 2\<close>, so \<open>C2 = 2 C\<close>, and
  \<open>R = 1 / (2 \<pi> \<cdot> 330\<cdot>10\<^sup>-\<^sup>9 \<cdot> 10 \<cdot> \<surd>2)\<close>. Lemma \<open>notebook_components\<close> below
  proves that the cell computes them.
\<close>

definition notebook_R :: real where
  "notebook_R = 10 ^ 9 / (6600 * pi * sqrt 2)"

definition notebook_values :: ComponentValues where
  "notebook_values = \<lparr>C1 = 330 / 10 ^ 9, C2 = 660 / 10 ^ 9, R1 = notebook_R, R2 = notebook_R\<rparr>"

text \<open>The specification's formulas for \<open>n\<close> and \<open>R\<close>, for comparison with the cell.\<close>

definition spec_n :: "real \<Rightarrow> real \<Rightarrow> real" where
  "spec_n Q m = (Q * (m + 1))\<^sup>2 / m"

definition spec_R :: "real \<Rightarrow> real \<Rightarrow> real \<Rightarrow> real \<Rightarrow> real" where
  "spec_R fc C m n = 1 / (2 * pi * C * fc * sqrt (m * n))"

text \<open>
  The invariants of the specification's data model: a filter specification is valid when
  its four parameters are positive.
\<close>

definition valid_spec :: "real \<Rightarrow> real \<Rightarrow> real \<Rightarrow> real \<Rightarrow> bool" where
  "valid_spec fc Q C m \<longleftrightarrow> 0 < fc \<and> 0 < Q \<and> 0 < C \<and> 0 < m"

text \<open>Component values are valid when all four are positive.\<close>

definition valid_components :: "ComponentValues \<Rightarrow> bool" where
  "valid_components cv \<longleftrightarrow> 0 < C1 cv \<and> 0 < C2 cv \<and> 0 < R1 cv \<and> 0 < R2 cv"

subsection \<open>Second cell: the transfer function\<close>

text \<open>\<^verbatim>\<open>s = lambda f: 2*math.pi*f*1j\<close>\<close>

definition s :: "real \<Rightarrow> complex" where
  "s f = of_real (2 * pi * f) * \<i>"

text \<open>
  The denominator of \<^verbatim>\<open>H\<close>: \<^verbatim>\<open>s(f)**2*R1*C1*R2*C2 + s(f)*(R1*C1+R2*C1) + 1\<close>, over the
  component values of the first cell (global variables in the notebook, a record here).
\<close>

definition H_denominator :: "ComponentValues \<Rightarrow> real \<Rightarrow> complex" where
  "H_denominator cv f =
     (s f)\<^sup>2 * of_real (R1 cv) * of_real (C1 cv) * of_real (R2 cv) * of_real (C2 cv)
     + s f * of_real (R1 cv * C1 cv + R2 cv * C1 cv) + 1"

text \<open>
  \<^verbatim>\<open>H = lambda f: 1/(...)\<close>, on a Python number \<^verbatim>\<open>f\<close>, where a zero divisor raises.
  (On an element of a numpy array the same division gives an infinity or a NaN with a
  warning; those values are outside this development.)
\<close>

definition H :: "ComponentValues \<Rightarrow> real \<Rightarrow> error + complex" where
  "H cv f = complex_div 1 (H_denominator cv f)"

text \<open>\<^verbatim>\<open>M = lambda f: 20*math.log10(abs(H(f)))\<close>\<close>

definition M :: "ComponentValues \<Rightarrow> real \<Rightarrow> error + real" where
  "M cv f =
    (case H cv f of
       Inl e \<Rightarrow> Inl e
     | Inr h \<Rightarrow> (case math_log10 (cmod h) of Inl e \<Rightarrow> Inl e | Inr l \<Rightarrow> Inr (20 * l)))"



section \<open>Properties of the component values\<close>

lemma spec_n_pos: "0 < Q \<Longrightarrow> 0 < m \<Longrightarrow> 0 < spec_n Q m"
  by (simp add: spec_n_def)

lemma synthesize_valid:
  assumes "valid_spec fc Q C m"
  shows "synthesize fc Q C m =
    Inr \<lparr>C1 = C, C2 = spec_n Q m * C,
         R1 = m * spec_R fc C m (spec_n Q m), R2 = spec_R fc C m (spec_n Q m)\<rparr>"
proof -
  from assms have pos: "0 < fc" "0 < Q" "0 < C" "0 < m"
    by (simp_all add: valid_spec_def)
  then have n: "0 < spec_n Q m"
    by (simp add: spec_n_pos)
  with pos have "0 < m * spec_n Q m"
    by simp
  then have r: "0 < sqrt (m * spec_n Q m)" "\<not> m * spec_n Q m < 0"
    by simp_all
  from pos n have "2 * pi * C * fc * sqrt (m * spec_n Q m) \<noteq> 0"
    by simp
  with pos r show ?thesis
    by (simp add: synthesize_def float_div_def math_sqrt_def spec_n_def spec_R_def)
qed










section \<open>Properties of the transfer function\<close>

subsection \<open>The denominator\<close>

lemma s_squared: "(s f)\<^sup>2 = - of_real ((2 * pi * f)\<^sup>2)"
  by (simp add: s_def power_mult_distrib)

lemma Re_H_denominator:
  "Re (H_denominator cv f) = 1 - (2 * pi * f)\<^sup>2 * R1 cv * C1 cv * R2 cv * C2 cv"
  by (simp add: H_denominator_def s_squared) (simp add: s_def)

lemma Im_H_denominator:
  "Im (H_denominator cv f) = 2 * pi * f * (R1 cv * C1 cv + R2 cv * C1 cv)"
  by (simp add: H_denominator_def s_squared) (simp add: s_def)

lemma H_denominator_zero_freq: "H_denominator cv 0 = 1"
  by (simp add: H_denominator_def s_def)

lemma Im_H_denominator_nonzero:
  assumes "valid_components cv" and "f \<noteq> 0"
  shows "Im (H_denominator cv f) \<noteq> 0"
proof -
  from assms(1) have "0 < R1 cv * C1 cv + R2 cv * C1 cv"
    by (simp add: valid_components_def add_pos_pos)
  with assms(2) show ?thesis
    by (simp add: Im_H_denominator)
qed

lemma H_denominator_nonzero:
  assumes "valid_components cv"
  shows "H_denominator cv f \<noteq> 0"
proof (cases "f = 0")
  case True
  then show ?thesis by (simp add: H_denominator_zero_freq)
next
  case False
  with assms have "Im (H_denominator cv f) \<noteq> 0"
    by (rule Im_H_denominator_nonzero)
  then show ?thesis by auto
qed

lemma H_valid:
  "valid_components cv \<Longrightarrow> H cv f = Inr (1 / H_denominator cv f)"
  by (simp add: H_def complex_div_def H_denominator_nonzero)

lemma M_valid:
  assumes "valid_components cv"
  shows "M cv f = Inr (20 * log 10 (cmod (1 / H_denominator cv f)))"
proof -
  from assms have "H_denominator cv f \<noteq> 0"
    by (rule H_denominator_nonzero)
  then have "0 < cmod (1 / H_denominator cv f)"
    by (simp add: norm_divide)
  then show ?thesis
    by (simp add: M_def H_valid [OF assms] math_log10_def)
qed




subsection \<open>The phase is the principal argument\<close>





subsection \<open>Numerical bounds\<close>

lemma arctan_partial_sums:
  fixes x :: real
  assumes "0 \<le> x" and "x \<le> 1"
  shows "(\<Sum>k<2 * n. (- 1) ^ k * (1 / real (k * 2 + 1) * x ^ (k * 2 + 1))) \<le> arctan x"
    and "arctan x \<le> (\<Sum>k<2 * n + 1. (- 1) ^ k * (1 / real (k * 2 + 1) * x ^ (k * 2 + 1)))"
proof -
  let ?a = "\<lambda>k. 1 / real (k * 2 + 1) * x ^ (k * 2 + 1)"
  from assms have abs: "\<bar>x\<bar> \<le> 1" by simp
  have zero: "?a \<longlonglongrightarrow> 0"
    using abs by (rule zeroseq_arctan_series)
  have nonneg: "0 \<le> ?a k" for k
    using assms by simp
  have decr: "?a (Suc k) \<le> ?a k" for k
  proof (rule mult_mono)
    show "1 / real (Suc k * 2 + 1) \<le> 1 / real (k * 2 + 1)"
      by (rule frac_le) simp_all
    show "x ^ (Suc k * 2 + 1) \<le> x ^ (k * 2 + 1)"
      using assms by (intro power_decreasing) simp_all
  qed (use assms in simp_all)
  have series: "arctan x = (\<Sum>k. (- 1) ^ k * ?a k)"
    using abs by (rule arctan_series)
  show "(\<Sum>k<2 * n. (- 1) ^ k * ?a k) \<le> arctan x"
    unfolding series by (rule summable_Leibniz'(2) [OF zero nonneg decr])
  show "arctan x \<le> (\<Sum>k<2 * n + 1. (- 1) ^ k * ?a k)"
    unfolding series by (rule summable_Leibniz'(4) [OF zero nonneg decr])
qed

lemma arctan_fifth_bounds:
  "197395559 / 10 ^ 9 < arctan (1 / 5)" "arctan (1 / 5) < 197395560 / 10 ^ 9"
proof -
  have "197395559 / 10 ^ 9 < (\<Sum>k<2 * 3. (- 1) ^ k * (1 / real (k * 2 + 1) * (1 / 5 :: real) ^ (k * 2 + 1)))"
    by (simp add: lessThan_nat_numeral lessThan_Suc power_one_over)
  also have "\<dots> \<le> arctan (1 / 5)"
    by (rule arctan_partial_sums) simp_all
  finally show "197395559 / 10 ^ 9 < arctan (1 / 5)" .
  have "arctan (1 / 5) \<le> (\<Sum>k<2 * 3 + 1. (- 1) ^ k * (1 / real (k * 2 + 1) * (1 / 5 :: real) ^ (k * 2 + 1)))"
    by (rule arctan_partial_sums) simp_all
  also have "\<dots> < 197395560 / 10 ^ 9"
    by (simp add: lessThan_nat_numeral lessThan_Suc power_one_over)
  finally show "arctan (1 / 5) < 197395560 / 10 ^ 9" .
qed

lemma arctan_239th_bounds:
  "4184076 / 10 ^ 9 < arctan (1 / 239)" "arctan (1 / 239) < 4184077 / 10 ^ 9"
proof -
  have "4184076 / 10 ^ 9 < (\<Sum>k<2 * 1. (- 1) ^ k * (1 / real (k * 2 + 1) * (1 / 239 :: real) ^ (k * 2 + 1)))"
    by (simp add: lessThan_nat_numeral lessThan_Suc power_one_over)
  also have "\<dots> \<le> arctan (1 / 239)"
    by (rule arctan_partial_sums) simp_all
  finally show "4184076 / 10 ^ 9 < arctan (1 / 239)" .
  have "arctan (1 / 239) \<le> (\<Sum>k<2 * 1 + 1. (- 1) ^ k * (1 / real (k * 2 + 1) * (1 / 239 :: real) ^ (k * 2 + 1)))"
    by (rule arctan_partial_sums) simp_all
  also have "\<dots> < 4184077 / 10 ^ 9"
    by (simp add: lessThan_nat_numeral lessThan_Suc power_one_over)
  finally show "arctan (1 / 239) < 4184077 / 10 ^ 9" .
qed

lemma pi_bounds: "3141592 / 10 ^ 6 < pi" "pi < 3141593 / 10 ^ 6"
proof -
  have "pi = 16 * arctan (1 / 5) - 4 * arctan (1 / 239)"
    using machin by simp
  with arctan_fifth_bounds arctan_239th_bounds
  show "3141592 / 10 ^ 6 < pi" "pi < 3141593 / 10 ^ 6"
    by simp_all
qed

lemma sqrt2_bounds: "1414213 / 10 ^ 6 < sqrt 2" "sqrt 2 < 1414214 / 10 ^ 6"
proof -
  show "1414213 / 10 ^ 6 < sqrt 2"
    by (rule real_less_rsqrt) (simp add: power2_eq_square)
  show "sqrt 2 < 1414214 / 10 ^ 6"
    by (rule real_less_lsqrt) (simp_all add: power2_eq_square)
qed

lemma log10_2_bounds: "31 / 103 < log 10 2" "log 10 2 < 28 / 93"
proof -
  have up: "log 10 ((2::real) ^ 103) = real 103 * log 10 2"
    by (rule log_nat_power) simp
  have "real 31 < log 10 ((2::real) ^ 103)"
    by (rule less_log_of_power) simp_all
  with up show "31 / 103 < log 10 2"
    by simp
  have low: "log 10 ((2::real) ^ 93) = real 93 * log 10 2"
    by (rule log_nat_power) simp
  have "log 10 ((2::real) ^ 93) < 28"
    by (simp add: log_less_iff)
  with low show "log 10 2 < 28 / 93"
    by simp
qed

lemma notebook_n: "spec_n notebook_Q notebook_m = 2"
  by (simp add: spec_n_def notebook_Q_def notebook_m_def power_mult_distrib power_divide)

lemma notebook_components:
  "synthesize notebook_fc notebook_Q notebook_C notebook_m = Inr notebook_values"
proof -
  have "valid_spec notebook_fc notebook_Q notebook_C notebook_m"
    by (simp add: valid_spec_def notebook_fc_def notebook_Q_def notebook_C_def notebook_m_def)
  then show ?thesis
    by (simp add: synthesize_valid notebook_n notebook_values_def)
       (simp add: spec_R_def notebook_fc_def notebook_C_def notebook_m_def notebook_R_def)
qed

lemma pi_sqrt2_bounds:
  "3141592 / 10 ^ 6 * (1414213 / 10 ^ 6) < pi * sqrt 2"
  "pi * sqrt 2 < 3141593 / 10 ^ 6 * (1414214 / 10 ^ 6)"
  using pi_bounds sqrt2_bounds by (intro mult_strict_mono; simp)+

lemma notebook_R_bounds: "3410279 / 100 < notebook_R" "notebook_R < 3410299 / 100"
proof -
  have pos: "0 < pi * sqrt 2" by simp
  have "3410279 / 100 * (6600 * (pi * sqrt 2)) < 10 ^ 9"
    using pi_sqrt2_bounds(2) by simp
  with pos show "3410279 / 100 < notebook_R"
    unfolding notebook_R_def by (simp add: pos_less_divide_eq mult.assoc)
  have "10 ^ 9 < 3410299 / 100 * (6600 * (pi * sqrt 2))"
    using pi_sqrt2_bounds(1) by simp
  with pos show "notebook_R < 3410299 / 100"
    unfolding notebook_R_def by (simp add: pos_divide_less_eq mult.assoc)
qed

lemma notebook_values_valid: "valid_components notebook_values"
proof -
  have "0 < notebook_R"
    by (simp add: notebook_R_def)
  then show ?thesis
    by (simp add: valid_components_def notebook_values_def)
qed

lemma notebook_denominator_at_cutoff: "H_denominator notebook_values 10 = Complex 0 (sqrt 2)"
proof (rule complex_eqI)
  show "Re (H_denominator notebook_values 10) = Re (Complex 0 (sqrt 2))"
    by (simp add: Re_H_denominator notebook_values_def notebook_R_def
        power_mult_distrib power_divide power2_eq_square)
  have "2 * pi * 10 * (notebook_R * (330 / 10 ^ 9) + notebook_R * (330 / 10 ^ 9)) = 2 / sqrt 2"
    by (simp add: notebook_R_def)
  also have "\<dots> = sqrt 2"
    by (simp add: real_div_sqrt)
  finally show "Im (H_denominator notebook_values 10) = Im (Complex 0 (sqrt 2))"
    by (simp add: Im_H_denominator notebook_values_def)
qed

lemma notebook_magnitude_at_cutoff: "M notebook_values 10 = Inr (- 10 * log 10 2)"
proof -
  have m: "M notebook_values 10 = Inr (20 * log 10 (cmod (1 / H_denominator notebook_values 10)))"
    using notebook_values_valid by (rule M_valid)
  have "cmod (Complex 0 (sqrt 2)) = sqrt 2"
    by (simp add: cmod_def)
  then have c: "cmod (1 / H_denominator notebook_values 10) = 1 / sqrt 2"
    by (simp only: notebook_denominator_at_cutoff norm_divide norm_one)
  have "ln (1 / sqrt 2) = - (ln 2 / 2)"
    by (simp add: ln_div ln_sqrt)
  then have l: "log 10 (1 / sqrt 2) = - (log 10 2 / 2)"
    by (simp add: log_def)
  show ?thesis
    unfolding m c l by simp
qed

subsection \<open>The claims on the transfer function\<close>









text \<open>
  Claim C8. With the notebook's parameters (\<open>fc = 10\<close>, \<open>Q = 1 / \<surd>2\<close>,
  \<open>C = 330\<cdot>10\<^sup>-\<^sup>9\<close>, \<open>m = 1\<close>) the capacitors are 330 nF and 660 nF, both resistors are
  within 0.1 Ohm of 34102.89 Ohm, and with these components the magnitude at 10 Hz is
  within 0.005 dB of \<open>-3.01\<close> dB.
\<close>

theorem notebook_scenario:
  "\<exists>cv db. synthesize notebook_fc notebook_Q notebook_C notebook_m = Inr cv
     \<and> \<bar>C1 cv * 10 ^ 9 - 330\<bar> \<le> 1 / 100 \<and> \<bar>C2 cv * 10 ^ 9 - 660\<bar> \<le> 1 / 100
     \<and> \<bar>R1 cv - 3410289 / 100\<bar> \<le> 1 / 10 \<and> \<bar>R2 cv - 3410289 / 100\<bar> \<le> 1 / 10
     \<and> M cv 10 = Inr db \<and> \<bar>db - (- 301 / 100)\<bar> \<le> 5 / 1000"
proof (intro exI conjI)
  show "synthesize notebook_fc notebook_Q notebook_C notebook_m = Inr notebook_values"
    by (rule notebook_components)
  show "M notebook_values 10 = Inr (- 10 * log 10 2)"
    by (rule notebook_magnitude_at_cutoff)
  show "\<bar>C1 notebook_values * 10 ^ 9 - 330\<bar> \<le> 1 / 100"
    by (simp add: notebook_values_def)
  show "\<bar>C2 notebook_values * 10 ^ 9 - 660\<bar> \<le> 1 / 100"
    by (simp add: notebook_values_def)
  have "\<bar>notebook_R - 3410289 / 100\<bar> \<le> 1 / 10"
    using notebook_R_bounds by linarith
  then show "\<bar>R1 notebook_values - 3410289 / 100\<bar> \<le> 1 / 10"
    and "\<bar>R2 notebook_values - 3410289 / 100\<bar> \<le> 1 / 10"
    by (simp_all add: notebook_values_def)
  show "\<bar>- 10 * log 10 2 - (- 301 / 100)\<bar> \<le> 5 / 1000"
    using log10_2_bounds by linarith
qed

end
